theory Spec2Isabelle
  imports Complex_Main "HOL-Library.AList" "HOL-Library.Char_ord" "HOL-Library.List_Lexorder"
    "HOL-Library.Multiset"
begin

section \<open>Python values and strings\<close>

text \<open>
  A Python \<^verbatim>\<open>str\<close> is modelled as a \<^typ>\<open>string\<close>; each \<^typ>\<open>char\<close> stands for one code
  point below 256, and the order of \<^theory_text>\<open>Char_ord\<close> with the lexicographic order on lists is
  Python's comparison of strings. A \<^verbatim>\<open>dict\<close> is an association list with distinct keys
  in insertion order, and \<^verbatim>\<open>d[k] = v\<close> is \<^const>\<open>AList.update\<close> (overwrite in place, or append).
  The values that the agent returns to its caller are of type \<open>pyval\<close>. A Python float
  is carried as the exact rational it would round. An exception is a value of type
  \<open>py_error\<close>: a function whose body can raise returns \<open>py_error + 'a\<close>, with \<open>Inl\<close> for the
  exception.
\<close>

datatype py_error = ZeroDivisionError

datatype pyval =
    PInt int
  | PFloat rat
  | PStr string
  | PList "pyval list"
  | PDict "(string \<times> pyval) list"

definition int_dict :: "(string \<times> int) list \<Rightarrow> pyval" where
  "int_dict d = PDict (map (\<lambda>(k, v). (k, PInt v)) d)"

fun keys :: "pyval \<Rightarrow> string list" where
  "keys (PDict d) = map fst d"
| "keys _ = []"

fun item :: "pyval \<Rightarrow> string \<Rightarrow> pyval option" where
  "item (PDict d) k = map_of d k"
| "item _ k = None"

text \<open>\<^verbatim>\<open>v[k1][k2]...\<close>: the entry at a path of keys, \<open>None\<close> where Python raises \<^verbatim>\<open>KeyError\<close>.\<close>

fun at_path :: "pyval \<Rightarrow> string list \<Rightarrow> pyval option" where
  "at_path v [] = Some v"
| "at_path v (k # ks) = (case item v k of None \<Rightarrow> None | Some u \<Rightarrow> at_path u ks)"

definition key_set :: "pyval \<Rightarrow> string set" where
  "key_set v = set (keys v)"

text \<open>
  The entry at a path of keys in the result of a call: the exception where the call raised,
  otherwise what \<open>at_path\<close> finds in the value returned.
\<close>

definition result_at :: "py_error + pyval \<Rightarrow> string list \<Rightarrow> py_error + pyval option" where
  "result_at r ks = (case r of Inl e \<Rightarrow> Inl e | Inr v \<Rightarrow> Inr (at_path v ks))"

text \<open>The key set of that entry.\<close>

definition result_keys_at :: "py_error + pyval \<Rightarrow> string list \<Rightarrow> py_error + string set option" where
  "result_keys_at r ks =
     (case result_at r ks of Inl e \<Rightarrow> Inl e | Inr v \<Rightarrow> Inr (map_option key_set v))"

text \<open>\<^verbatim>\<open>a / b\<close> on integers: true division, which raises on a zero divisor.\<close>

definition truediv :: "int \<Rightarrow> int \<Rightarrow> py_error + rat" where
  "truediv a b = (if b = 0 then Inl ZeroDivisionError else Inr (of_int a / of_int b))"

definition newline :: char where
  "newline = CHR 0x0A"

text \<open>\<^verbatim>\<open>str.isspace\<close> on the code points below 256; it is also the class \<^verbatim>\<open>\s\<close> of \<^verbatim>\<open>re\<close>.\<close>

definition is_space :: "char \<Rightarrow> bool" where
  "is_space c = (let n = (of_char c :: nat) in
     (9 \<le> n \<and> n \<le> 13) \<or> (28 \<le> n \<and> n \<le> 32) \<or> n = 133 \<or> n = 160)"

text \<open>The class \<^verbatim>\<open>\w\<close> of \<^verbatim>\<open>re\<close> on the code points below 256: alphanumeric or underscore.\<close>

definition is_word :: "char \<Rightarrow> bool" where
  "is_word c = (let n = (of_char c :: nat) in
     (48 \<le> n \<and> n \<le> 57) \<or> (65 \<le> n \<and> n \<le> 90) \<or> n = 95 \<or> (97 \<le> n \<and> n \<le> 122) \<or>
     n = 170 \<or> n = 178 \<or> n = 179 \<or> n = 181 \<or> n = 185 \<or> n = 186 \<or>
     (188 \<le> n \<and> n \<le> 190) \<or> (192 \<le> n \<and> n \<le> 214) \<or> (216 \<le> n \<and> n \<le> 246) \<or>
     248 \<le> n)"

text \<open>\<^verbatim>\<open>s.split('\n')\<close>: the current line is carried along; the result is never empty.\<close>

fun split_acc :: "string \<Rightarrow> string \<Rightarrow> string list" where
  "split_acc cur [] = [cur]"
| "split_acc cur (c # cs) =
     (if c = newline then cur # split_acc [] cs else split_acc (cur @ [c]) cs)"

definition split_nl :: "string \<Rightarrow> string list" where
  "split_nl s = split_acc [] s"

text \<open>\<^verbatim>\<open>'\n'.join(ls)\<close>\<close>

fun join_nl :: "string list \<Rightarrow> string" where
  "join_nl [] = []"
| "join_nl [l] = l"
| "join_nl (l # ls) = l @ newline # join_nl ls"

text \<open>\<^verbatim>\<open>s.split()\<close>: split at runs of whitespace, no empty token.\<close>

fun words_acc :: "string \<Rightarrow> string \<Rightarrow> string list" where
  "words_acc cur [] = (if cur = [] then [] else [cur])"
| "words_acc cur (c # cs) =
     (if is_space c then (if cur = [] then words_acc [] cs else cur # words_acc [] cs)
      else words_acc (cur @ [c]) cs)"

definition split_ws :: "string \<Rightarrow> string list" where
  "split_ws s = words_acc [] s"

text \<open>\<^verbatim>\<open>s.strip()\<close>\<close>

definition strip :: "string \<Rightarrow> string" where
  "strip s = rev (dropWhile is_space (rev (dropWhile is_space s)))"

text \<open>\<^verbatim>\<open>s.startswith(p)\<close>\<close>

definition startswith :: "string \<Rightarrow> string \<Rightarrow> bool" where
  "startswith s p = (take (length p) s = p)"

text \<open>\<^verbatim>\<open>sub in s\<close>\<close>

fun contains :: "string \<Rightarrow> string \<Rightarrow> bool" where
  "contains sub [] = (sub = [])"
| "contains sub (c # cs) = (startswith (c # cs) sub \<or> contains sub cs)"

section \<open>Regular expressions of the shape the optimizer uses\<close>

text \<open>
  The pattern of \<^verbatim>\<open>optimize_loops\<close> is a sequence of literals, \<^verbatim>\<open>\s+\<close> and the groups
  \<^verbatim>\<open>(\w+)\<close>. \<open>rx_match\<close> is the backtracking matcher of \<^verbatim>\<open>re\<close> on such a sequence: a
  repetition is greedy, it takes the longest run first and gives characters back one by
  one. The result is the texts of the groups and the rest of the input.
\<close>

datatype rx_item =
    Lit string
  | Plus "char \<Rightarrow> bool"
  | Group "char \<Rightarrow> bool"

fun first_some :: "'a option list \<Rightarrow> 'a option" where
  "first_some [] = None"
| "first_some (None # xs) = first_some xs"
| "first_some (Some x # xs) = Some x"

fun rx_match :: "rx_item list \<Rightarrow> string \<Rightarrow> (string list \<times> string) option" where
  "rx_match [] s = Some ([], s)"
| "rx_match (Lit l # r) s =
     (if startswith s l then rx_match r (drop (length l) s) else None)"
| "rx_match (Plus c # r) s =
     first_some (map (\<lambda>n. rx_match r (drop n s)) (rev [1 ..< Suc (length (takeWhile c s))]))"
| "rx_match (Group c # r) s =
     first_some (map (\<lambda>n. map_option (\<lambda>(gs, rest). (take n s # gs, rest)) (rx_match r (drop n s)))
       (rev [1 ..< Suc (length (takeWhile c s))]))"

text \<open>\<^verbatim>\<open>for\s+(\w+)\s+in\s+range\(len\((\w+)\)\)\<close>\<close>

definition loop_pattern :: "rx_item list" where
  "loop_pattern =
     [Lit ''for'', Plus is_space, Group is_word, Plus is_space, Lit ''in'', Plus is_space,
      Lit ''range(len('', Group is_word, Lit ''))'']"

text \<open>The template \<^verbatim>\<open>for \1 in \2\<close>\<close>

fun loop_template :: "string list \<Rightarrow> string" where
  "loop_template (g1 # g2 # _) = ''for '' @ g1 @ '' in '' @ g2"
| "loop_template _ = []"

text \<open>
  \<^verbatim>\<open>re.sub\<close>: scan from the left; where the pattern matches, emit the template and go on
  after the match (\<open>k\<close> counts the characters of the match still to skip), elsewhere copy
  the character. The pattern matches no empty text.
\<close>

fun sub_scan :: "nat \<Rightarrow> string \<Rightarrow> string" where
  "sub_scan k [] = []"
| "sub_scan (Suc k) (c # cs) = sub_scan k cs"
| "sub_scan 0 (c # cs) =
     (case rx_match loop_pattern (c # cs) of
        None \<Rightarrow> c # sub_scan 0 cs
      | Some (gs, rest) \<Rightarrow> loop_template gs @ sub_scan (length cs - length rest) cs)"

section \<open>CodeAnalyzer\<close>

record CodeAnalyzer =
  metrics :: "(string \<times> int) list"
  issues :: "pyval list"

definition new_CodeAnalyzer :: CodeAnalyzer where
  "new_CodeAnalyzer =
     \<lparr>metrics = [(''complexity'', 0), (''efficiency'', 0), (''readability'', 0)], issues = []\<rparr>"

definition complexity_of :: "string \<Rightarrow> int" where
  "complexity_of code =
     int (length (filter (\<lambda>l. contains ''if'' l \<or> contains ''for'' l) (split_nl code)))"

definition readability_of :: "string \<Rightarrow> int" where
  "readability_of code =
     int (length (filter (\<lambda>l. strip l \<noteq> [] \<and> \<not> startswith (strip l) ''#'') (split_nl code)))"

definition analyze :: "CodeAnalyzer \<Rightarrow> string \<Rightarrow> pyval \<times> CodeAnalyzer" where
  "analyze self code =
     (let m1 = AList.update ''complexity'' (complexity_of code) (metrics self);
          m2 = AList.update ''readability'' (readability_of code) m1;
          self' = self\<lparr>metrics := m2\<rparr>
      in (PDict [(''metrics'', int_dict (metrics self')), (''issues'', PList (issues self'))],
          self'))"

definition suggest_improvements :: "string \<Rightarrow> string list" where
  "suggest_improvements code =
     (let s0 = [];
          s1 = (if contains ''import *'' code
                then s0 @ [''Replace 'import *' with specific imports''] else s0);
          s2 = (if contains ''  '' code then s1 @ [''Use consistent indentation''] else s1);
          s3 = (if contains ''TODO'' code \<or> contains ''FIXME'' code
                then s2 @ [''Address TODO/FIXME comments''] else s2)
      in s3)"

section \<open>CodeOptimizer\<close>

definition optimize_loops :: "string \<Rightarrow> string" where
  "optimize_loops code = sub_scan 0 code"

definition is_import :: "string \<Rightarrow> bool" where
  "is_import line = (startswith line ''import '' \<or> startswith line ''from '')"

definition optimize_imports :: "string \<Rightarrow> string" where
  "optimize_imports code =
     (let lines = split_nl code;
          imports = filter is_import lines;
          other_lines = filter (\<lambda>l. \<not> is_import l) lines
      in join_nl (sort imports @ other_lines))"

section \<open>AgentLearner\<close>

record improvement =
  timestamp :: string
  type :: string
  before_lines :: int
  after_lines :: int

record AgentLearner =
  learned_patterns :: "(string \<times> pyval) list"
  improvement_history :: "improvement list"

definition new_AgentLearner :: AgentLearner where
  "new_AgentLearner = \<lparr>learned_patterns = [], improvement_history = []\<rparr>"

text \<open>\<^verbatim>\<open>patterns.get(word, 0)\<close>\<close>

definition get_or :: "(string \<times> int) list \<Rightarrow> string \<Rightarrow> int \<Rightarrow> int" where
  "get_or d k dflt = (case map_of d k of None \<Rightarrow> dflt | Some v \<Rightarrow> v)"

definition count_words :: "string list \<Rightarrow> (string \<times> int) list" where
  "count_words ws = fold (\<lambda>word patterns. AList.update word (get_or patterns word 0 + 1) patterns) ws []"

definition extract_patterns :: "string \<Rightarrow> (string \<times> int) list" where
  "extract_patterns code = filter (\<lambda>(k, v). v > 1) (count_words (split_ws code))"

text \<open>The clock is an input: \<open>now\<close> is the text of \<^verbatim>\<open>datetime.now().isoformat()\<close>.\<close>

definition log_improvement :: "AgentLearner \<Rightarrow> string \<Rightarrow> string \<Rightarrow> string \<Rightarrow> string \<Rightarrow> AgentLearner" where
  "log_improvement self before after improvement_type now =
     self\<lparr>improvement_history := improvement_history self @
       [\<lparr>timestamp = now, type = improvement_type,
         before_lines = int (length (split_nl before)),
         after_lines = int (length (split_nl after))\<rparr>]\<rparr>"

definition calculate_avg_reduction :: "AgentLearner \<Rightarrow> py_error + rat" where
  "calculate_avg_reduction self =
     (if improvement_history self = [] then Inr 0
      else (let reductions = map (\<lambda>h. before_lines h - after_lines h) (improvement_history self)
            in truediv (sum_list reductions) (int (length reductions))))"

definition get_learning_stats :: "AgentLearner \<Rightarrow> py_error + pyval" where
  "get_learning_stats self =
     (case calculate_avg_reduction self of
        Inl e \<Rightarrow> Inl e
      | Inr avg \<Rightarrow>
          Inr (PDict [(''total_improvements'', PInt (int (length (improvement_history self)))),
                      (''pattern_count'', PInt (int (length (learned_patterns self)))),
                      (''avg_reduction'', PFloat avg)]))"

section \<open>CodingAgent\<close>

record CodingAgent =
  analyzer :: CodeAnalyzer
  learner :: AgentLearner

definition new_CodingAgent :: CodingAgent where
  "new_CodingAgent = \<lparr>analyzer = new_CodeAnalyzer, learner = new_AgentLearner\<rparr>"

text \<open>
  The result of a call is the report or the exception; the agent comes back in both cases,
  with what the statements before the exception wrote.
\<close>

definition improve_code ::
  "CodingAgent \<Rightarrow> string \<Rightarrow> string \<Rightarrow> (py_error + pyval) \<times> CodingAgent" where
  "improve_code self code now =
     (let original_code = code;
          (analysis, analyzer') = analyze (analyzer self) code;
          suggestions = suggest_improvements code;
          code = optimize_loops code;
          code = optimize_imports code;
          patterns = extract_patterns code;
          learner' = log_improvement (learner self) original_code code ''full_improvement'' now;
          self' = self\<lparr>analyzer := analyzer', learner := learner'\<rparr>
      in (case get_learning_stats learner' of
            Inl e \<Rightarrow> (Inl e, self')
          | Inr stats \<Rightarrow>
              (Inr (PDict [(''improved_code'', PStr code),
                           (''analysis'', analysis),
                           (''suggestions'', PList (map PStr suggestions)),
                           (''patterns'', int_dict patterns),
                           (''learning_stats'', stats)]),
               self')))"

definition get_performance_report :: "CodingAgent \<Rightarrow> py_error + pyval" where
  "get_performance_report self =
     (case get_learning_stats (learner self) of
        Inl e \<Rightarrow> Inl e
      | Inr stats \<Rightarrow>
          Inr (PDict [(''name'', PStr ''Self-Improving Coding Agent''),
                      (''version'', PStr ''0.1.0''),
                      (''capabilities'', PList [PStr ''analyze'', PStr ''optimize'', PStr ''learn'']),
                      (''learning_stats'', stats)]))"

text \<open>A session: the calls of \<^verbatim>\<open>improve_code\<close> made on one agent, each with its text and its
  clock reading; the results come back in the order of the calls, and an exception ends the
  session.\<close>

fun run_calls ::
  "CodingAgent \<Rightarrow> (string \<times> string) list \<Rightarrow> (py_error + pyval) list \<times> CodingAgent" where
  "run_calls self [] = ([], self)"
| "run_calls self ((code, now) # cs) =
     (case improve_code self code now of
        (Inl e, self') \<Rightarrow> ([Inl e], self')
      | (Inr r, self') \<Rightarrow>
          (let (rs, self'') = run_calls self' cs in (Inr r # rs, self'')))"

section \<open>Auxiliary notions of the proofs\<close>

text \<open>The list of lines that \<^verbatim>\<open>optimize_imports\<close> joins: the import lines sorted, then the others.\<close>

definition reordered :: "string list \<Rightarrow> string list" where
  "reordered ls = sort (filter is_import ls) @ filter (\<lambda>l. \<not> is_import l) ls"

text \<open>One round of the counting loop of \<^verbatim>\<open>extract_patterns\<close>.\<close>

definition bump :: "string \<Rightarrow> (string \<times> int) list \<Rightarrow> (string \<times> int) list" where
  "bump word patterns = AList.update word (get_or patterns word 0 + 1) patterns"

text \<open>The five lines of the end-to-end example.\<close>

definition calc_example :: string where
  "calc_example =
     ''def calc(x,y):'' @ [newline] @
     ''    if x>0:'' @ [newline] @
     ''        return x+y'' @ [newline] @
     ''    else:'' @ [newline] @
     ''        return x-y''"

section \<open>The learner's statistics\<close>

text \<open>The mean never raises: the division is reached with a history that is not empty.\<close>

lemma calculate_avg_reduction_returns: "\<exists>avg. calculate_avg_reduction self = Inr avg"
  by (cases "improvement_history self = []")
    (simp_all add: calculate_avg_reduction_def Let_def truediv_def)

lemma get_learning_stats_returns:
  "\<exists>avg. get_learning_stats self =
     Inr (PDict [(''total_improvements'', PInt (int (length (improvement_history self)))),
                 (''pattern_count'', PInt (int (length (learned_patterns self)))),
                 (''avg_reduction'', PFloat avg)])"
proof -
  obtain avg where "calculate_avg_reduction self = Inr avg"
    using calculate_avg_reduction_returns [of self] by (rule exE)
  then show ?thesis
    by (simp add: get_learning_stats_def)
qed

text \<open>
  C8. On a learner whose history is empty, the statistics return normally, with
  \<^verbatim>\<open>total_improvements = 0\<close> and \<^verbatim>\<open>avg_reduction = 0.0\<close>: the mean is guarded by the test for
  the empty history and returns 0.0 without dividing; the division that the guard skips,
  the sum of the reductions by the length of the history, would raise
  \<^verbatim>\<open>ZeroDivisionError\<close> there.
\<close>

theorem stats_empty_history:
  assumes "improvement_history self = []"
  shows "calculate_avg_reduction self = Inr 0 \<and>
         get_learning_stats self =
           Inr (PDict [(''total_improvements'', PInt 0),
                       (''pattern_count'', PInt (int (length (learned_patterns self)))),
                       (''avg_reduction'', PFloat 0)]) \<and>
         result_at (get_learning_stats self) [''total_improvements''] = Inr (Some (PInt 0)) \<and>
         result_at (get_learning_stats self) [''avg_reduction''] = Inr (Some (PFloat 0)) \<and>
         truediv (sum_list (map (\<lambda>h. before_lines h - after_lines h) (improvement_history self)))
           (int (length (improvement_history self))) = Inl ZeroDivisionError"
  using assms
  by (simp add: get_learning_stats_def calculate_avg_reduction_def result_at_def truediv_def)

theorem stats_empty_history_witness:
  "improvement_history new_AgentLearner = [] \<and>
   calculate_avg_reduction new_AgentLearner = Inr 0 \<and>
   get_learning_stats new_AgentLearner =
     Inr (PDict [(''total_improvements'', PInt 0), (''pattern_count'', PInt 0),
                 (''avg_reduction'', PFloat 0)]) \<and>
   truediv 0 0 = Inl ZeroDivisionError"
proof -
  have h: "improvement_history new_AgentLearner = []"
    by (simp add: new_AgentLearner_def)
  have p: "learned_patterns new_AgentLearner = []"
    by (simp add: new_AgentLearner_def)
  show ?thesis
    using h stats_empty_history [OF h] by (simp add: p)
qed

section \<open>Splitting and joining lines\<close>

lemma split_acc_not_Nil: "split_acc cur s \<noteq> []"
  by (induction s arbitrary: cur) auto

lemma split_acc_no_newline:
  "newline \<notin> set cur \<Longrightarrow> l \<in> set (split_acc cur s) \<Longrightarrow> newline \<notin> set l"
proof (induction s arbitrary: cur)
  case Nil
  then show ?case by auto
next
  case (Cons c s)
  show ?case
  proof (cases "c = newline")
    case True
    with Cons.prems have "l = cur \<or> l \<in> set (split_acc [] s)" by simp
    then show ?thesis
      using Cons.prems(1) Cons.IH [of "[]"] by auto
  next
    case False
    with Cons.prems have "l \<in> set (split_acc (cur @ [c]) s)" by simp
    moreover have "newline \<notin> set (cur @ [c])"
      using False Cons.prems(1) by auto
    ultimately show ?thesis by (rule Cons.IH [rotated])
  qed
qed

lemma split_acc_line: "newline \<notin> set l \<Longrightarrow> split_acc cur l = [cur @ l]"
  by (induction l arbitrary: cur) auto

lemma split_acc_line_newline:
  "newline \<notin> set l \<Longrightarrow> split_acc cur (l @ newline # s) = (cur @ l) # split_acc [] s"
  by (induction l arbitrary: cur) auto

lemma split_nl_not_Nil: "split_nl s \<noteq> []"
  by (simp add: split_nl_def split_acc_not_Nil)

lemma split_nl_no_newline: "l \<in> set (split_nl s) \<Longrightarrow> newline \<notin> set l"
  unfolding split_nl_def by (rule split_acc_no_newline [of "[]"]) simp_all

lemma split_nl_join_nl:
  "ls \<noteq> [] \<Longrightarrow> (\<And>l. l \<in> set ls \<Longrightarrow> newline \<notin> set l) \<Longrightarrow> split_nl (join_nl ls) = ls"
proof (induction ls rule: join_nl.induct)
  case 1
  then show ?case by simp
next
  case (2 l)
  then show ?case by (simp add: split_nl_def split_acc_line)
next
  case (3 l k ks)
  have "split_nl (join_nl (k # ks)) = k # ks"
    using 3 by simp
  moreover have "newline \<notin> set l"
    using 3 by simp
  ultimately show ?case
    by (simp add: split_nl_def split_acc_line_newline)
qed

section \<open>The import block\<close>

lemma optimize_imports_reordered: "optimize_imports code = join_nl (reordered (split_nl code))"
  by (simp add: optimize_imports_def reordered_def Let_def)

lemma mset_reordered: "mset (reordered ls) = mset ls"
  by (simp add: reordered_def)

lemma set_reordered: "set (reordered ls) = set ls"
  by (auto simp: reordered_def)

lemma length_reordered: "length (reordered ls) = length ls"
  using mset_reordered [of ls] by (metis size_mset)

lemma reordered_idem: "reordered (reordered ls) = reordered ls"
proof -
  have "filter is_import (reordered ls) = sort (filter is_import ls)"
    by (simp add: reordered_def filter_sort)
  moreover have "filter (\<lambda>l. \<not> is_import l) (reordered ls) = filter (\<lambda>l. \<not> is_import l) ls"
    by (simp add: reordered_def filter_sort)
  ultimately show ?thesis
    by (simp add: reordered_def [of "reordered ls"] sorted_sort_id) (simp add: reordered_def)
qed

lemma split_nl_optimize_imports: "split_nl (optimize_imports code) = reordered (split_nl code)"
proof -
  have "reordered (split_nl code) \<noteq> []"
    using length_reordered [of "split_nl code"] split_nl_not_Nil [of code] by auto
  moreover have "\<And>l. l \<in> set (reordered (split_nl code)) \<Longrightarrow> newline \<notin> set l"
    by (simp add: set_reordered split_nl_no_newline)
  ultimately show ?thesis
    by (simp add: optimize_imports_reordered split_nl_join_nl)
qed

text \<open>
  C6. \<^verbatim>\<open>optimize_imports\<close> is idempotent: for every text, applying it twice gives the same
  text as applying it once.
\<close>

theorem optimize_imports_idempotent:
  "optimize_imports (optimize_imports code) = optimize_imports code"
  by (simp add: optimize_imports_reordered [of "optimize_imports code"]
      split_nl_optimize_imports reordered_idem) (simp add: optimize_imports_reordered)

text \<open>
  C10. For every text, the lines of \<^verbatim>\<open>optimize_imports(T)\<close> (split at newlines) are a
  permutation of the lines of \<^verbatim>\<open>T\<close>, equal as multisets; the number of lines is unchanged.
\<close>

theorem optimize_imports_permutes_lines:
  "mset (split_nl (optimize_imports code)) = mset (split_nl code) \<and>
   length (split_nl (optimize_imports code)) = length (split_nl code)"
  by (simp add: split_nl_optimize_imports mset_reordered length_reordered)

section \<open>The metrics\<close>




section \<open>The pattern table\<close>

text \<open>The tokens of \<^verbatim>\<open>s.split()\<close> are not empty and hold no whitespace.\<close>

lemma words_acc_tokens:
  "(\<And>c. c \<in> set cur \<Longrightarrow> \<not> is_space c) \<Longrightarrow> w \<in> set (words_acc cur s) \<Longrightarrow>
   w \<noteq> [] \<and> (\<forall>c\<in>set w. \<not> is_space c)"
proof (induction s arbitrary: cur)
  case Nil
  then show ?case by (auto split: if_splits)
next
  case (Cons a s)
  show ?case
  proof (cases "is_space a")
    case True
    then have "w \<in> set (words_acc [] s) \<or> (cur \<noteq> [] \<and> w = cur)"
      using Cons.prems(2) by (auto split: if_splits)
    then show ?thesis
      using Cons.IH [of "[]"] Cons.prems(1) by auto
  next
    case False
    then have "w \<in> set (words_acc (cur @ [a]) s)"
      using Cons.prems(2) by simp
    moreover have "\<And>c. c \<in> set (cur @ [a]) \<Longrightarrow> \<not> is_space c"
      using False Cons.prems(1) by auto
    ultimately show ?thesis
      using Cons.IH [of "cur @ [a]"] by blast
  qed
qed

lemma split_ws_tokens: "w \<in> set (split_ws s) \<Longrightarrow> w \<noteq> [] \<and> (\<forall>c\<in>set w. \<not> is_space c)"
  unfolding split_ws_def by (rule words_acc_tokens [of "[]"]) simp_all

lemma count_words_fold: "count_words ws = fold bump ws []"
  by (simp add: count_words_def bump_def [abs_def])

lemma distinct_bump: "distinct (map fst d) \<Longrightarrow> distinct (map fst (bump w d))"
  by (simp add: bump_def distinct_update)

lemma get_or_bump: "get_or (bump w d) k 0 = get_or d k 0 + (if k = w then 1 else 0)"
  by (simp add: bump_def get_or_def update_conv')

lemma distinct_fold_bump: "distinct (map fst d) \<Longrightarrow> distinct (map fst (fold bump ws d))"
  by (induction ws arbitrary: d) (simp_all add: distinct_bump)

lemma get_or_fold_bump: "get_or (fold bump ws d) k 0 = get_or d k 0 + int (count_list ws k)"
  by (induction ws arbitrary: d) (simp_all add: get_or_bump)

lemma dom_bump: "fst ` set (bump w d) = insert w (fst ` set d)"
  by (simp add: bump_def dom_update)

lemma dom_fold_bump: "fst ` set (fold bump ws d) = set ws \<union> fst ` set d"
  by (induction ws arbitrary: d) (auto simp: dom_bump)

lemma map_of_count_words:
  "map_of (count_words ws) k = (if k \<in> set ws then Some (int (count_list ws k)) else None)"
proof (cases "k \<in> set ws")
  case True
  then have "k \<in> fst ` set (count_words ws)"
    by (simp add: count_words_fold dom_fold_bump)
  then obtain v where v: "map_of (count_words ws) k = Some v"
    by (metis domD dom_map_of_conv_image_fst)
  then have "get_or (count_words ws) k 0 = v"
    by (simp add: get_or_def)
  moreover have "get_or (count_words ws) k 0 = int (count_list ws k)"
    using get_or_fold_bump [of ws "[]" k] by (simp add: count_words_fold get_or_def)
  ultimately have "v = int (count_list ws k)"
    by simp
  with v True show ?thesis by simp
next
  case False
  then have "k \<notin> fst ` set (count_words ws)"
    by (simp add: count_words_fold dom_fold_bump)
  then have "map_of (count_words ws) k = None"
    by (simp add: map_of_eq_None_iff)
  with False show ?thesis by simp
qed

lemma distinct_count_words: "distinct (map fst (count_words ws))"
  by (simp add: count_words_fold distinct_fold_bump)

lemma map_of_filter_vals:
  "distinct (map fst d) \<Longrightarrow>
   map_of (filter (\<lambda>(k, v). P v) d) k =
     (case map_of d k of None \<Rightarrow> None | Some v \<Rightarrow> if P v then Some v else None)"
proof (induction d)
  case Nil
  then show ?case by simp
next
  case (Cons p d)
  obtain a b where p: "p = (a, b)" by (cases p)
  have notin: "a \<notin> fst ` set d" using Cons.prems p by simp
  then have none: "map_of d a = None" by (simp add: map_of_eq_None_iff)
  have "a \<notin> fst ` set (filter (\<lambda>(k, v). P v) d)" using notin by auto
  then have none': "map_of (filter (\<lambda>(k, v). P v) d) a = None" by (simp add: map_of_eq_None_iff)
  show ?case
    using Cons p none none' by (cases "k = a") auto
qed

lemma distinct_extract_patterns: "distinct (map fst (extract_patterns code))"
  by (simp add: extract_patterns_def distinct_count_words distinct_map_filter)

text \<open>
  C5. For every text, the pattern table holds exactly the whitespace-delimited tokens that
  occur at least twice, each bound to its number of occurrences; a token that occurs at most
  once is absent, no key is repeated, and the empty text gives the empty table.
\<close>

theorem extract_patterns_counts:
  "map_of (extract_patterns code) w =
     (if 2 \<le> count_list (split_ws code) w then Some (int (count_list (split_ws code) w)) else None) \<and>
   distinct (map fst (extract_patterns code)) \<and>
   extract_patterns [] = []"
proof -
  have "map_of (extract_patterns code) w =
     (if 2 \<le> count_list (split_ws code) w then Some (int (count_list (split_ws code) w)) else None)"
    unfolding extract_patterns_def
    by (simp add: map_of_filter_vals [OF distinct_count_words] map_of_count_words count_list_0_iff)
  moreover have "extract_patterns [] = []"
    by (simp add: extract_patterns_def split_ws_def count_words_def)
  ultimately show ?thesis
    by (simp add: distinct_extract_patterns)
qed

section \<open>The pipeline\<close>

lemma result_at_get_learning_stats_pattern_count:
  "result_at (get_learning_stats l) [''pattern_count''] =
     Inr (Some (PInt (int (length (learned_patterns l)))))"
proof -
  obtain avg where "get_learning_stats l =
     Inr (PDict [(''total_improvements'', PInt (int (length (improvement_history l)))),
                 (''pattern_count'', PInt (int (length (learned_patterns l)))),
                 (''avg_reduction'', PFloat avg)])"
    using get_learning_stats_returns [of l] by (rule exE)
  then show ?thesis
    by (simp add: result_at_def)
qed

lemma learned_patterns_log_improvement:
  "learned_patterns (log_improvement l before after kind now) = learned_patterns l"
  by (simp add: log_improvement_def)

lemma learner_improve_code:
  "learner (snd (improve_code self code now)) =
     log_improvement (learner self) code (optimize_imports (optimize_loops code)) ''full_improvement'' now"
  by (simp add: improve_code_def Let_def split: prod.splits sum.splits)

lemma analyzer_improve_code:
  "analyzer (snd (improve_code self code now)) = snd (analyze (analyzer self) code)"
  by (simp add: improve_code_def Let_def split: prod.splits sum.splits)

text \<open>The call returns normally: the statistics are taken after the record was appended.\<close>

lemma report_improve_code:
  "\<exists>stats.
     get_learning_stats (log_improvement (learner self) code
       (optimize_imports (optimize_loops code)) ''full_improvement'' now) = Inr stats \<and>
     fst (improve_code self code now) =
       Inr (PDict [(''improved_code'', PStr (optimize_imports (optimize_loops code))),
                   (''analysis'', fst (analyze (analyzer self) code)),
                   (''suggestions'', PList (map PStr (suggest_improvements code))),
                   (''patterns'', int_dict (extract_patterns (optimize_imports (optimize_loops code)))),
                   (''learning_stats'', stats)])"
proof -
  let ?l = "log_improvement (learner self) code
       (optimize_imports (optimize_loops code)) ''full_improvement'' now"
  obtain avg where g: "get_learning_stats ?l =
     Inr (PDict [(''total_improvements'', PInt (int (length (improvement_history ?l)))),
                 (''pattern_count'', PInt (int (length (learned_patterns ?l)))),
                 (''avg_reduction'', PFloat avg)])"
    using get_learning_stats_returns [of ?l] by (rule exE)
  have "fst (improve_code self code now) =
       Inr (PDict [(''improved_code'', PStr (optimize_imports (optimize_loops code))),
                   (''analysis'', fst (analyze (analyzer self) code)),
                   (''suggestions'', PList (map PStr (suggest_improvements code))),
                   (''patterns'', int_dict (extract_patterns (optimize_imports (optimize_loops code)))),
                   (''learning_stats'',
                      PDict [(''total_improvements'', PInt (int (length (improvement_history ?l)))),
                             (''pattern_count'', PInt (int (length (learned_patterns ?l)))),
                             (''avg_reduction'', PFloat avg)])])"
    by (simp add: improve_code_def Let_def g split: prod.splits)
  with g show ?thesis by simp
qed

lemma result_at_improve_code:
  "result_at (fst (improve_code self code now)) [''improved_code''] =
     Inr (Some (PStr (optimize_imports (optimize_loops code))))"
  "result_at (fst (improve_code self code now)) (''analysis'' # ks) =
     Inr (at_path (fst (analyze (analyzer self) code)) ks)"
  "result_at (fst (improve_code self code now)) [''suggestions''] =
     Inr (Some (PList (map PStr (suggest_improvements code))))"
  "result_at (fst (improve_code self code now)) [''patterns''] =
     Inr (Some (int_dict (extract_patterns (optimize_imports (optimize_loops code)))))"
  "result_at (fst (improve_code self code now)) (''learning_stats'' # ks) =
     result_at (get_learning_stats (learner (snd (improve_code self code now)))) ks"
  using report_improve_code [of self code now]
  by (auto simp: result_at_def learner_improve_code)

lemma learned_patterns_improve_code:
  "learned_patterns (learner (snd (improve_code self code now))) = learned_patterns (learner self)"
  by (simp add: learner_improve_code learned_patterns_log_improvement)

lemma report_pattern_count:
  "result_at (fst (improve_code self code now)) [''learning_stats'', ''pattern_count''] =
     Inr (Some (PInt (int (length (learned_patterns (learner self))))))"
  by (simp only: result_at_improve_code(5) result_at_get_learning_stats_pattern_count
      learned_patterns_improve_code)

text \<open>
  C4. For every text, the pipeline computes the analysis and the suggestions on the
  original text, the improved code as \<^verbatim>\<open>optimize_imports(optimize_loops(T))\<close>, the patterns
  on that optimized text, and appends to the history one record made from the original
  text and the optimized text (their numbers of lines).
\<close>

theorem pipeline_order:
  "(\<exists>stats.
     get_learning_stats (learner (snd (improve_code self code now))) = Inr stats \<and>
     fst (improve_code self code now) =
       Inr (PDict [(''improved_code'', PStr (optimize_imports (optimize_loops code))),
                   (''analysis'', fst (analyze (analyzer self) code)),
                   (''suggestions'', PList (map PStr (suggest_improvements code))),
                   (''patterns'', int_dict (extract_patterns (optimize_imports (optimize_loops code)))),
                   (''learning_stats'', stats)])) \<and>
   analyzer (snd (improve_code self code now)) = snd (analyze (analyzer self) code) \<and>
   learner (snd (improve_code self code now)) =
     log_improvement (learner self) code (optimize_imports (optimize_loops code))
       ''full_improvement'' now \<and>
   improvement_history (learner (snd (improve_code self code now))) =
     improvement_history (learner self) @
       [\<lparr>timestamp = now, type = ''full_improvement'',
         before_lines = int (length (split_nl code)),
         after_lines = int (length (split_nl (optimize_imports (optimize_loops code))))\<rparr>]"
proof -
  have "\<exists>stats.
     get_learning_stats (learner (snd (improve_code self code now))) = Inr stats \<and>
     fst (improve_code self code now) =
       Inr (PDict [(''improved_code'', PStr (optimize_imports (optimize_loops code))),
                   (''analysis'', fst (analyze (analyzer self) code)),
                   (''suggestions'', PList (map PStr (suggest_improvements code))),
                   (''patterns'', int_dict (extract_patterns (optimize_imports (optimize_loops code)))),
                   (''learning_stats'', stats)])"
    using report_improve_code [of self code now] by (simp only: learner_improve_code)
  then show ?thesis
    by (simp add: learner_improve_code analyzer_improve_code log_improvement_def)
qed

text \<open>
  The patterns are those of the optimized text: on this input the loop rewrite joins a
  third occurrence of the token \<^verbatim>\<open>i\<close> to the two of the original text.
\<close>

lemma patterns_of_optimized_text:
  "extract_patterns ''i for i in range(len(i))'' = [(''i'', 2)] \<and>
   result_at (fst (improve_code new_CodingAgent ''i for i in range(len(i))'' ''2024-01-01T00:00:00''))
     [''patterns''] = Inr (Some (PDict [(''i'', PInt 3)]))"
proof -
  have "optimize_loops ''i for i in range(len(i))'' = ''i for i in i''"
    by code_simp
  moreover have "optimize_imports ''i for i in i'' = ''i for i in i''"
    by code_simp
  moreover have "extract_patterns ''i for i in i'' = [(''i'', 3)]"
    by code_simp
  moreover have "extract_patterns ''i for i in range(len(i))'' = [(''i'', 2)]"
    by code_simp
  ultimately show ?thesis
    by (simp add: result_at_improve_code(4) int_dict_def)
qed

section \<open>The pattern count\<close>

text \<open>
  C1, as the code has it. For every learner, the statistics report as \<^verbatim>\<open>pattern_count\<close>
  the size of \<^verbatim>\<open>learned_patterns\<close>; a run of the pipeline leaves that mapping as it was,
  and the \<^verbatim>\<open>learning_stats\<close> of its report give the size the mapping had before the run,
  whatever the tokens of the text.
\<close>

theorem pattern_count_is_learned_patterns:
  "result_at (get_learning_stats l) [''pattern_count''] =
     Inr (Some (PInt (int (length (learned_patterns l))))) \<and>
   learned_patterns (learner (snd (improve_code self code now))) = learned_patterns (learner self) \<and>
   result_at (fst (improve_code self code now)) [''learning_stats'', ''pattern_count''] =
     Inr (Some (PInt (int (length (learned_patterns (learner self))))))"
  by (simp only: result_at_get_learning_stats_pattern_count learned_patterns_improve_code
      report_pattern_count simp_thms)

text \<open>
  C1, as stated, fails on the text \<^verbatim>\<open>a a\<close> given to a fresh agent: the pattern table of
  the optimized text has one entry, and the report gives \<^verbatim>\<open>pattern_count = 0\<close>.
\<close>

theorem pattern_count_counterexample:
  "result_at (fst (improve_code new_CodingAgent ''a a'' ''2024-01-01T00:00:00'')) [''patterns''] =
     Inr (Some (PDict [(''a'', PInt 2)])) \<and>
   length (extract_patterns (optimize_imports (optimize_loops ''a a''))) = 1 \<and>
   result_at (fst (improve_code new_CodingAgent ''a a'' ''2024-01-01T00:00:00''))
     [''learning_stats'', ''pattern_count''] = Inr (Some (PInt 0))"
proof -
  have "optimize_loops ''a a'' = ''a a''"
    by code_simp
  moreover have "optimize_imports ''a a'' = ''a a''"
    by code_simp
  moreover have "extract_patterns ''a a'' = [(''a'', 2)]"
    by code_simp
  moreover have "learned_patterns (learner new_CodingAgent) = []"
    by (simp add: new_CodingAgent_def new_AgentLearner_def)
  ultimately show ?thesis
    by (simp add: result_at_improve_code(4) report_pattern_count int_dict_def)
qed

lemma run_calls_Cons:
  "\<exists>r. fst (improve_code self code now) = Inr r \<and>
     fst (run_calls self ((code, now) # cs)) =
       Inr r # fst (run_calls (snd (improve_code self code now)) cs) \<and>
     snd (run_calls self ((code, now) # cs)) = snd (run_calls (snd (improve_code self code now)) cs)"
proof -
  obtain r where r: "fst (improve_code self code now) = Inr r"
    using report_improve_code [of self code now] by auto
  have "run_calls self ((code, now) # cs) =
      (Inr r # fst (run_calls (snd (improve_code self code now)) cs),
       snd (run_calls (snd (improve_code self code now)) cs))"
    by (simp add: case_prod_beta Let_def r)
  with r show ?thesis by simp
qed

lemma run_calls_snoc_state:
  "learned_patterns (learner (snd (run_calls self cs))) = learned_patterns (learner self)"
proof (induction cs arbitrary: self)
  case Nil
  then show ?case by simp
next
  case (Cons c cs)
  obtain code now where c: "c = (code, now)" by (cases c)
  have "snd (run_calls self (c # cs)) = snd (run_calls (snd (improve_code self code now)) cs)"
    using run_calls_Cons [of self code now cs] by (auto simp: c)
  then show ?case
    by (simp add: Cons.IH learned_patterns_improve_code)
qed

lemma run_calls_reports:
  "map (\<lambda>r. result_at r [''learning_stats'', ''pattern_count'']) (fst (run_calls self cs)) =
     replicate (length cs) (Inr (Some (PInt (int (length (learned_patterns (learner self)))))))"
proof (induction cs arbitrary: self)
  case Nil
  then show ?case by simp
next
  case (Cons c cs)
  obtain code now where c: "c = (code, now)" by (cases c)
  obtain r where r: "fst (improve_code self code now) = Inr r"
    and rs: "fst (run_calls self (c # cs)) =
      Inr r # fst (run_calls (snd (improve_code self code now)) cs)"
    using run_calls_Cons [of self code now cs] by (auto simp: c)
  have "result_at (Inr r) [''learning_stats'', ''pattern_count''] =
      Inr (Some (PInt (int (length (learned_patterns (learner self))))))"
    using report_pattern_count [of self code now] by (simp only: r)
  then show ?case
    using Cons.IH [of "snd (improve_code self code now)"]
    by (simp only: rs list.map length_Cons replicate_Suc learned_patterns_improve_code)
qed

text \<open>
  C9. On a fresh agent, after any sequence of calls of \<^verbatim>\<open>improve_code\<close>, the mapping
  \<^verbatim>\<open>learned_patterns\<close> is empty, and \<^verbatim>\<open>pattern_count\<close> is 0 in the statistics of the
  learner, in the \<^verbatim>\<open>learning_stats\<close> of every report returned (every call returns one), and
  in the performance report.
\<close>

theorem learned_patterns_stays_empty:
  "learned_patterns (learner (snd (run_calls new_CodingAgent cs))) = [] \<and>
   result_at (get_learning_stats (learner (snd (run_calls new_CodingAgent cs)))) [''pattern_count''] =
     Inr (Some (PInt 0)) \<and>
   map (\<lambda>r. result_at r [''learning_stats'', ''pattern_count'']) (fst (run_calls new_CodingAgent cs)) =
     replicate (length cs) (Inr (Some (PInt 0))) \<and>
   result_at (get_performance_report (snd (run_calls new_CodingAgent cs)))
     [''learning_stats'', ''pattern_count''] = Inr (Some (PInt 0))"
proof -
  let ?s = "snd (run_calls new_CodingAgent cs)"
  have fresh: "learned_patterns (learner new_CodingAgent) = []"
    by (simp add: new_CodingAgent_def new_AgentLearner_def)
  have st: "learned_patterns (learner ?s) = []"
    by (simp add: run_calls_snoc_state fresh)
  have gl: "result_at (get_learning_stats (learner ?s)) [''pattern_count''] = Inr (Some (PInt 0))"
    by (simp only: result_at_get_learning_stats_pattern_count st) simp
  obtain avg where "get_learning_stats (learner ?s) =
     Inr (PDict [(''total_improvements'', PInt (int (length (improvement_history (learner ?s))))),
                 (''pattern_count'', PInt (int (length (learned_patterns (learner ?s))))),
                 (''avg_reduction'', PFloat avg)])"
    using get_learning_stats_returns [of "learner ?s"] by (rule exE)
  then have pr: "result_at (get_performance_report ?s) [''learning_stats'', ''pattern_count''] =
      Inr (Some (PInt 0))"
    by (simp add: get_performance_report_def result_at_def st)
  have "map (\<lambda>r. result_at r [''learning_stats'', ''pattern_count''])
      (fst (run_calls new_CodingAgent cs)) = replicate (length cs) (Inr (Some (PInt 0)))"
    using run_calls_reports [of new_CodingAgent cs] by (simp only: fresh) simp
  with st gl pr show ?thesis
    by (simp only: simp_thms)
qed

section \<open>The analysis entry\<close>

lemma analyze_fresh_shape:
  assumes "metrics a = [(''complexity'', x), (''efficiency'', 0), (''readability'', y)]"
    and "issues a = []"
  shows "fst (analyze a code) =
      PDict [(''metrics'', PDict [(''complexity'', PInt (complexity_of code)),
                                  (''efficiency'', PInt 0),
                                  (''readability'', PInt (readability_of code))]),
             (''issues'', PList [])]"
    and "metrics (snd (analyze a code)) =
      [(''complexity'', complexity_of code), (''efficiency'', 0), (''readability'', readability_of code)]"
    and "issues (snd (analyze a code)) = []"
  using assms by (simp_all add: analyze_def Let_def int_dict_def)

lemma run_calls_analyzer_shape:
  assumes "\<exists>x y. metrics (analyzer self) = [(''complexity'', x), (''efficiency'', 0), (''readability'', y)]"
    and "issues (analyzer self) = []"
  shows "(\<exists>x y. metrics (analyzer (snd (run_calls self cs))) =
            [(''complexity'', x), (''efficiency'', 0), (''readability'', y)]) \<and>
         issues (analyzer (snd (run_calls self cs))) = []"
  using assms
proof (induction cs arbitrary: self)
  case Nil
  then show ?case by simp
next
  case (Cons c cs)
  obtain code now where c: "c = (code, now)" by (cases c)
  let ?s = "snd (improve_code self code now)"
  obtain x y where m: "metrics (analyzer self) = [(''complexity'', x), (''efficiency'', 0), (''readability'', y)]"
    using Cons.prems(1) by blast
  have "\<exists>x y. metrics (analyzer ?s) = [(''complexity'', x), (''efficiency'', 0), (''readability'', y)]"
    using analyze_fresh_shape(2) [OF m Cons.prems(2)] by (simp add: analyzer_improve_code)
  moreover have "issues (analyzer ?s) = []"
    using analyze_fresh_shape(3) [OF m Cons.prems(2)] by (simp add: analyzer_improve_code)
  moreover have "snd (run_calls self (c # cs)) = snd (run_calls ?s cs)"
    using run_calls_Cons [of self code now cs] by (auto simp: c)
  ultimately show ?case
    using Cons.IH [of ?s] by simp
qed

text \<open>
  C3, as the code has it. For every text, on an agent that was fresh and has served any
  calls, the analysis entry of the report is a mapping with the keys \<^verbatim>\<open>metrics\<close> and
  \<^verbatim>\<open>issues\<close>; its \<^verbatim>\<open>metrics\<close> entry has exactly the keys \<^verbatim>\<open>complexity\<close>,
  \<^verbatim>\<open>efficiency\<close> and \<^verbatim>\<open>readability\<close>, the first and the last bound to the counts of this
  text, \<^verbatim>\<open>efficiency\<close> bound to 0; \<^verbatim>\<open>issues\<close> is the empty list.
\<close>

theorem analysis_entry_shape:
  "result_at (fst (improve_code (snd (run_calls new_CodingAgent cs)) code now)) [''analysis''] =
     Inr (Some (PDict [(''metrics'', PDict [(''complexity'', PInt (complexity_of code)),
                                            (''efficiency'', PInt 0),
                                            (''readability'', PInt (readability_of code))]),
                       (''issues'', PList [])])) \<and>
   result_keys_at (fst (improve_code (snd (run_calls new_CodingAgent cs)) code now)) [''analysis''] =
     Inr (Some {''metrics'', ''issues''}) \<and>
   result_keys_at (fst (improve_code (snd (run_calls new_CodingAgent cs)) code now))
     [''analysis'', ''metrics''] =
     Inr (Some {''complexity'', ''efficiency'', ''readability''})"
proof -
  let ?s = "snd (run_calls new_CodingAgent cs)"
  have "\<exists>x y. metrics (analyzer new_CodingAgent) =
      [(''complexity'', x), (''efficiency'', 0), (''readability'', y)]"
    by (simp add: new_CodingAgent_def new_CodeAnalyzer_def)
  moreover have "issues (analyzer new_CodingAgent) = []"
    by (simp add: new_CodingAgent_def new_CodeAnalyzer_def)
  ultimately obtain x y where
    m: "metrics (analyzer ?s) = [(''complexity'', x), (''efficiency'', 0), (''readability'', y)]"
    and i: "issues (analyzer ?s) = []"
    using run_calls_analyzer_shape [of new_CodingAgent cs] by blast
  show ?thesis
    by (simp add: result_keys_at_def result_at_improve_code(2) analyze_fresh_shape(1) [OF m i]
        key_set_def)
qed

text \<open>
  C3, as stated, fails on the empty text given to a fresh agent: the key set of the
  analysis entry is not \<^verbatim>\<open>{complexity, readability}\<close>, and neither is the key set of the
  metrics inside it.
\<close>

theorem analysis_entry_counterexample:
  "result_keys_at (fst (improve_code new_CodingAgent [] ''2024-01-01T00:00:00'')) [''analysis''] =
     Inr (Some {''metrics'', ''issues''}) \<and>
   result_keys_at (fst (improve_code new_CodingAgent [] ''2024-01-01T00:00:00'')) [''analysis''] \<noteq>
     Inr (Some {''complexity'', ''readability''}) \<and>
   result_keys_at (fst (improve_code new_CodingAgent [] ''2024-01-01T00:00:00''))
     [''analysis'', ''metrics''] =
     Inr (Some {''complexity'', ''efficiency'', ''readability''}) \<and>
   result_keys_at (fst (improve_code new_CodingAgent [] ''2024-01-01T00:00:00''))
     [''analysis'', ''metrics''] \<noteq>
     Inr (Some {''complexity'', ''readability''})"
proof -
  have a: "{''metrics'', ''issues''} \<noteq> {''complexity'', ''readability''}"
  proof
    assume eq: "{''metrics'', ''issues''} = {''complexity'', ''readability''}"
    have "''metrics'' \<in> {''metrics'', ''issues''}" by simp
    then have "''metrics'' \<in> {''complexity'', ''readability''}" unfolding eq .
    then show False by simp
  qed
  have b: "{''complexity'', ''efficiency'', ''readability''} \<noteq> {''complexity'', ''readability''}"
  proof
    assume eq: "{''complexity'', ''efficiency'', ''readability''} = {''complexity'', ''readability''}"
    have "''efficiency'' \<in> {''complexity'', ''efficiency'', ''readability''}" by simp
    then have "''efficiency'' \<in> {''complexity'', ''readability''}" unfolding eq .
    then show False by simp
  qed
  have c: "result_keys_at (fst (improve_code new_CodingAgent [] ''2024-01-01T00:00:00''))
      [''analysis''] = Inr (Some {''metrics'', ''issues''})"
    by (simp add: result_keys_at_def result_at_improve_code(2) analyze_def Let_def int_dict_def
        key_set_def new_CodingAgent_def new_CodeAnalyzer_def)
  have d: "result_keys_at (fst (improve_code new_CodingAgent [] ''2024-01-01T00:00:00''))
      [''analysis'', ''metrics''] = Inr (Some {''complexity'', ''efficiency'', ''readability''})"
    by (simp add: result_keys_at_def result_at_improve_code(2) analyze_def Let_def int_dict_def
        key_set_def new_CodingAgent_def new_CodeAnalyzer_def)
  show ?thesis
    unfolding c d using a b by (simp only: sum.inject option.inject not_False_eq_True simp_thms)
qed

section \<open>The end-to-end example\<close>

lemma calc_example_values:
  "complexity_of calc_example = 1"
  "readability_of calc_example = 5"
  "suggest_improvements calc_example = [''Use consistent indentation'']"
  "optimize_loops calc_example = calc_example"
  "optimize_imports calc_example = calc_example"
  by code_simp+

lemma map_of_int_dict_analyze:
  "at_path (fst (analyze a code)) [''metrics'', ''complexity''] = Some (PInt (complexity_of code))"
  "at_path (fst (analyze a code)) [''metrics'', ''readability''] = Some (PInt (readability_of code))"
  by (simp_all add: analyze_def Let_def int_dict_def map_of_map update_conv')

text \<open>
  C2, as the code has it. For the five lines of the example, on any agent, the report has
  complexity 1 and readability 5, the single suggestion \<^verbatim>\<open>Use consistent indentation\<close>
  (the indentation holds two consecutive spaces), and the improved code is the input,
  unchanged by \<^verbatim>\<open>optimize_loops\<close> and by \<^verbatim>\<open>optimize_imports\<close>.
\<close>

theorem calc_example_report:
  "result_at (fst (improve_code self calc_example now)) [''analysis'', ''metrics'', ''complexity''] =
     Inr (Some (PInt 1)) \<and>
   result_at (fst (improve_code self calc_example now)) [''analysis'', ''metrics'', ''readability''] =
     Inr (Some (PInt 5)) \<and>
   result_at (fst (improve_code self calc_example now)) [''suggestions''] =
     Inr (Some (PList [PStr ''Use consistent indentation''])) \<and>
   optimize_loops calc_example = calc_example \<and>
   optimize_imports calc_example = calc_example \<and>
   result_at (fst (improve_code self calc_example now)) [''improved_code''] =
     Inr (Some (PStr calc_example))"
  using map_of_int_dict_analyze [of "analyzer self" calc_example]
  by (simp only: result_at_improve_code calc_example_values) simp

text \<open>
  C2, as stated, fails: the call returns a suggestion list that is not empty, and the
  analysis entry has no key \<^verbatim>\<open>complexity\<close> of its own (the metrics are one level below).
\<close>

theorem calc_example_counterexample:
  "result_at (fst (improve_code new_CodingAgent calc_example ''2024-01-01T00:00:00''))
     [''suggestions''] = Inr (Some (PList [PStr ''Use consistent indentation''])) \<and>
   result_at (fst (improve_code new_CodingAgent calc_example ''2024-01-01T00:00:00''))
     [''suggestions''] \<noteq> Inr (Some (PList [])) \<and>
   result_at (fst (improve_code new_CodingAgent calc_example ''2024-01-01T00:00:00''))
     [''analysis'', ''complexity''] = Inr None"
proof -
  have "result_at (fst (improve_code new_CodingAgent calc_example ''2024-01-01T00:00:00''))
      [''analysis'', ''complexity''] = Inr None"
    by (simp add: result_at_improve_code(2) analyze_def Let_def)
  then show ?thesis
    by (simp add: result_at_improve_code(3) calc_example_values)
qed

end
